theory Spec2Isabelle
  imports Main
begin

section \<open>Shared vocabulary\<close>

text \<open>
  Python exceptions that the modelled code raises, catches or lets through.  The first
  three derive from \<open>BaseException\<close> only; every other one derives from \<open>Exception\<close>,
  which is what an \<open>except Exception\<close> clause catches.
\<close>

datatype exn =
    KeyboardInterrupt
  | SystemExit
  | GeneratorExit
  | KeyError
  | AttributeError
  | ImportError
  | TypeError
  | ValueError
  | ZeroDivisionError
  | TldmWarning
  | OtherException nat

fun is_Exception :: "exn \<Rightarrow> bool" where
  "is_Exception KeyboardInterrupt = False"
| "is_Exception SystemExit = False"
| "is_Exception GeneratorExit = False"
| "is_Exception _ = True"

text \<open>
  Progress-bar classes are external to the modelled files; they are referred to by
  identity.  \<open>StdTldm\<close> is \<open>tldm.std.tldm\<close>, \<open>NotebookTldm\<close> is \<open>tldm.notebook.tldm\<close>,
  \<open>UserTldm k\<close> is a class supplied by a caller.
\<close>

datatype tldm_class = StdTldm | NotebookTldm | UserTldm nat

section \<open>logging.py\<close>

subsection \<open>Handlers, loggers and the object store\<close>

text \<open>
  Output streams by identity: \<open>sys.stdout\<close>, \<open>sys.stderr\<close>, and any other stream object
  (an open file, a buffer).
\<close>

datatype out_stream = Stdout | Stderr | OtherStream nat

text \<open>
  The attributes of a handler object that \<open>logging.py\<close> reads or writes.
  \<open>is_stream_handler\<close> is \<open>isinstance(handler, logging.StreamHandler)\<close>; \<open>tqdm_class\<close>
  is set exactly on instances of \<open>_TqdmLoggingHandler\<close>.
\<close>

record handler =
  is_stream_handler :: bool
  tqdm_class :: "tldm_class option"
  stream :: out_stream
  formatter :: "nat option"
  level :: int

type_synonym logger = nat
type_synonym href = nat
type_synonym lref = nat
type_synonym lgref = nat

text \<open>
  The store.  A logger's \<open>handlers\<close> attribute holds a reference to a list object; a list
  object holds references to handler objects.  Objects are allocated at the next free
  reference.  \<open>logger_lists\<close> holds the list objects whose items are loggers, such as the
  list a caller passes as \<open>loggers\<close>; like every object of the store they can be changed by
  any code that runs.
\<close>

record log_state =
  handlers_attr :: "logger \<Rightarrow> lref"
  list_heap :: "lref \<Rightarrow> href list"
  next_list :: lref
  handler_heap :: "href \<Rightarrow> handler"
  next_handler :: href
  logger_lists :: "lgref \<Rightarrow> logger list"

definition root :: logger where
  "root = 0"

subsection \<open>\<open>_TqdmLoggingHandler\<close>\<close>

text \<open>
  \<open>_TqdmLoggingHandler(tqdm_class)\<close>: \<open>logging.StreamHandler.__init__()\<close> with no stream
  selects \<open>sys.stderr\<close>, no formatter and level \<open>NOTSET = 0\<close>; then the class is stored.
\<close>

definition TqdmLoggingHandler_init :: "tldm_class \<Rightarrow> handler" where
  "TqdmLoggingHandler_init c =
     \<lparr>is_stream_handler = True, tqdm_class = Some c, stream = Stderr,
      formatter = None, level = 0\<rparr>"

type_synonym log_record = nat

text \<open>
  What \<open>emit\<close> calls, each an external operation that returns or raises:
  \<open>self.format(record)\<close>, \<open>tqdm_class.write(msg, file=stream)\<close>, \<open>self.flush()\<close>.
  \<open>self.handleError(record)\<close> is the logging library's reporting path; it is recorded as
  a call.
\<close>

record emit_env =
  format_record :: "log_record \<Rightarrow> exn + string"
  class_write :: "tldm_class \<Rightarrow> string \<Rightarrow> out_stream \<Rightarrow> exn option"
  flush_handler :: "exn option"

datatype emit_call =
    CallFormat log_record
  | CallWrite tldm_class string out_stream
  | CallFlush
  | CallHandleError log_record

text \<open>
  The body of the \<open>try\<close> in \<open>emit\<close>: the calls made so far, and the exception that ended
  the body if one did.  An instance without \<open>tqdm_class\<close> fails the attribute lookup.
\<close>

definition emit_try :: "emit_env \<Rightarrow> handler \<Rightarrow> log_record \<Rightarrow> exn option \<times> emit_call list" where
  "emit_try env self r =
     (case format_record env r of
        Inl e \<Rightarrow> (Some e, [CallFormat r])
      | Inr msg \<Rightarrow>
          (case tqdm_class self of
             None \<Rightarrow> (Some AttributeError, [CallFormat r])
           | Some c \<Rightarrow>
               (case class_write env c msg (stream self) of
                  Some e \<Rightarrow> (Some e, [CallFormat r, CallWrite c msg (stream self)])
                | None \<Rightarrow>
                    (case flush_handler env of
                       Some e \<Rightarrow>
                         (Some e, [CallFormat r, CallWrite c msg (stream self), CallFlush])
                     | None \<Rightarrow>
                         (None, [CallFormat r, CallWrite c msg (stream self), CallFlush])))))"

text \<open>
  \<open>emit\<close>: \<open>except (KeyboardInterrupt, SystemExit): raise\<close>, then a bare \<open>except\<close> that
  calls \<open>handleError\<close>.  The result is the exception that leaves \<open>emit\<close>, if any, and the
  calls made.
\<close>

definition emit :: "emit_env \<Rightarrow> handler \<Rightarrow> log_record \<Rightarrow> exn option \<times> emit_call list" where
  "emit env self r =
     (case emit_try env self r of
        (None, calls) \<Rightarrow> (None, calls)
      | (Some e, calls) \<Rightarrow>
          (if e = KeyboardInterrupt \<or> e = SystemExit then (Some e, calls)
           else (None, calls @ [CallHandleError r])))"

subsection \<open>Console detection\<close>

definition is_console_logging_handler :: "handler \<Rightarrow> bool" where
  "is_console_logging_handler h =
     (is_stream_handler h \<and> (stream h = Stdout \<or> stream h = Stderr))"

fun get_first_found_console_logging_handler ::
  "(href \<Rightarrow> handler) \<Rightarrow> href list \<Rightarrow> href option" where
  "get_first_found_console_logging_handler hp [] = None"
| "get_first_found_console_logging_handler hp (h # hs) =
     (if is_console_logging_handler (hp h) then Some h
      else get_first_found_console_logging_handler hp hs)"

subsection \<open>\<open>logging_redirect_tqdm\<close>\<close>

text \<open>
  One pass of the \<open>for logger in loggers\<close> loop of the entry: allocate the redirecting
  handler, copy formatter, level and stream from the first console handler if there is
  one, build the new list object and bind it to \<open>logger.handlers\<close>.
\<close>

definition redirect_logger :: "tldm_class \<Rightarrow> logger \<Rightarrow> log_state \<Rightarrow> log_state" where
  "redirect_logger c lg s =
     (let th = next_handler s;
          s1 = s\<lparr>handler_heap := (handler_heap s)(th := TqdmLoggingHandler_init c),
                 next_handler := Suc th\<rparr>;
          hs = list_heap s1 (handlers_attr s1 lg);
          s2 = (case get_first_found_console_logging_handler (handler_heap s1) hs of
                  None \<Rightarrow> s1
                | Some oh \<Rightarrow>
                    s1\<lparr>handler_heap := (handler_heap s1)
                         (th := (handler_heap s1 th)
                            \<lparr>stream := stream (handler_heap s1 oh),
                             formatter := formatter (handler_heap s1 oh),
                             level := level (handler_heap s1 oh)\<rparr>)\<rparr>);
          new_list = filter (\<lambda>h. \<not> is_console_logging_handler (handler_heap s2 h))
                       (list_heap s2 (handlers_attr s2 lg)) @ [th];
          l = next_list s2
      in s2\<lparr>list_heap := (list_heap s2)(l := new_list),
             next_list := Suc l,
             handlers_attr := (handlers_attr s2)(lg := l)\<rparr>)"

text \<open>
  The items of \<open>loggers\<close> as an iteration over it finds them in a given store.  The
  argument is \<open>None\<close> or a reference to the caller's list object; for \<open>None\<close> the function
  binds \<open>loggers\<close> to a new list \<open>[logging.root]\<close> that only its own frame holds.
\<close>

definition target_loggers :: "lgref option \<Rightarrow> log_state \<Rightarrow> logger list" where
  "target_loggers loggers s =
     (case loggers of None \<Rightarrow> [root] | Some r \<Rightarrow> logger_lists s r)"

definition enter_redirect :: "logger list \<Rightarrow> tldm_class \<Rightarrow> log_state \<Rightarrow> log_state" where
  "enter_redirect ls c s = fold (redirect_logger c) ls s"

text \<open>The \<open>finally\<close> block: rebind each logger's \<open>handlers\<close> to its saved list object.\<close>

fun restore_handlers :: "(logger \<times> lref) list \<Rightarrow> log_state \<Rightarrow> log_state" where
  "restore_handlers [] s = s"
| "restore_handlers ((lg, orig) # rest) s =
     restore_handlers rest (s\<lparr>handlers_attr := (handlers_attr s)(lg := orig)\<rparr>)"

text \<open>
  The code run inside the \<open>with\<close> block is any transformer of the store that either
  returns or raises.
\<close>

datatype outcome = Returned | Raised exn

type_synonym scope_body = "log_state \<Rightarrow> outcome \<times> log_state"

text \<open>
  The whole scope: snapshot, entry loop, the block, and the \<open>finally\<close> restoration, which
  runs on both outcomes; an exception raised by the block leaves the scope afterwards.
  \<open>loggers\<close> is iterated three times: for the snapshot and for the entry loop, both
  before the block, and by \<open>zip(loggers, original_handlers_list)\<close> in the \<open>finally\<close>
  block, which finds the items the list has after the block has run.
\<close>

definition logging_redirect_tqdm ::
  "lgref option \<Rightarrow> tldm_class \<Rightarrow> scope_body \<Rightarrow> log_state \<Rightarrow> outcome \<times> log_state" where
  "logging_redirect_tqdm loggers c body s =
     (let original_handlers_list = map (handlers_attr s) (target_loggers loggers s);
          s1 = enter_redirect (target_loggers loggers s) c s;
          (out, s2) = body s1
      in (out, restore_handlers (zip (target_loggers loggers s2) original_handlers_list) s2))"


subsection \<open>Invariants of the entry loop\<close>

text \<open>
  \<open>heap_frame s0 st\<close>: \<open>st\<close> was reached from \<open>s0\<close> by allocation only, so every object of
  \<open>s0\<close> is unchanged in \<open>st\<close>.
\<close>

definition heap_frame :: "log_state \<Rightarrow> log_state \<Rightarrow> bool" where
  "heap_frame s0 st =
     (next_list s0 \<le> next_list st \<and> next_handler s0 \<le> next_handler st \<and>
      (\<forall>r < next_list s0. list_heap st r = list_heap s0 r) \<and>
      (\<forall>h < next_handler s0. handler_heap st h = handler_heap s0 h))"

definition non_console :: "(href \<Rightarrow> handler) \<Rightarrow> href list \<Rightarrow> href list" where
  "non_console hp hs = filter (\<lambda>h. \<not> is_console_logging_handler (hp h)) hs"

text \<open>
  \<open>allocated s lg\<close>: the list object of \<open>lg\<close> and the handlers in it exist in \<open>s\<close>.
\<close>

definition allocated :: "log_state \<Rightarrow> logger \<Rightarrow> bool" where
  "allocated s lg =
     (handlers_attr s lg < next_list s \<and>
      (\<forall>h \<in> set (list_heap s (handlers_attr s lg)). h < next_handler s))"

text \<open>
  \<open>redirected s0 c lg st\<close>: in \<open>st\<close> the logger \<open>lg\<close> carries the non-console handlers it had
  in \<open>s0\<close>, then a redirecting handler allocated since, which is itself a console handler
  and has the attributes of the first console handler of \<open>s0\<close>.
\<close>

definition redirected :: "log_state \<Rightarrow> tldm_class \<Rightarrow> logger \<Rightarrow> log_state \<Rightarrow> bool" where
  "redirected s0 c lg st =
     (let new = list_heap st (handlers_attr st lg);
          th = last new;
          prior = list_heap s0 (handlers_attr s0 lg)
      in handlers_attr st lg < next_list st \<and>
         new = non_console (handler_heap s0) prior @ [th] \<and>
         next_handler s0 \<le> th \<and> th < next_handler st \<and>
         tqdm_class (handler_heap st th) = Some c \<and>
         is_console_logging_handler (handler_heap st th) \<and>
         (\<forall>oh. get_first_found_console_logging_handler (handler_heap s0) prior = Some oh \<longrightarrow>
            formatter (handler_heap st th) = formatter (handler_heap s0 oh) \<and>
            level (handler_heap st th) = level (handler_heap s0 oh) \<and>
            stream (handler_heap st th) = stream (handler_heap s0 oh)))"

section \<open>aliases.py\<close>

subsection \<open>\<open>_get_auto_tldm\<close>\<close>

text \<open>
  What the probing steps of \<open>_get_auto_tldm\<close> find in the process, each an external
  operation that returns or raises:
  \<^item> \<open>ipython_hook\<close>: \<open>sys.modules["IPython"].get_ipython\<close> (\<open>KeyError\<close> when IPython was
    never imported);
  \<^item> \<open>kernel_app\<close>: \<open>"IPKernelApp" in get_ipython().config\<close> (\<open>AttributeError\<close> when
    \<open>get_ipython()\<close> is \<open>None\<close>, or whatever the hook raises);
  \<^item> \<open>import_WARN_NOIPYW\<close>: \<open>from .notebook import WARN_NOIPYW\<close>;
  \<^item> \<open>import_IProgress\<close>: \<open>from .notebook import IProgress\<close>, which raises or binds
    \<open>None\<close> (\<open>False\<close>) or a widget class (\<open>True\<close>);
  \<^item> \<open>warn_call\<close>: \<open>warn(WARN_NOIPYW, TldmWarning, stacklevel=2)\<close>, which raises when a
    warnings filter turns the warning into an error;
  \<^item> \<open>import_notebook_tldm\<close>: \<open>from .notebook import tldm\<close>.
\<close>

record probe_env =
  ipython_hook :: "exn option"
  kernel_app :: "exn + bool"
  import_WARN_NOIPYW :: "exn option"
  import_IProgress :: "exn + bool"
  warn_call :: "exn option"
  import_notebook_tldm :: "exn option"

text \<open>
  What a run leaves behind: how often the probing code was entered and how often \<open>warn\<close>
  was called.
\<close>

record world =
  probes :: nat
  warn_calls :: nat

text \<open>
  The \<open>if IProgress is None\<close> branch: warn, then \<open>raise ImportError("ipywidgets")\<close>.
  The result is the exception that leaves the branch and the number of \<open>warn\<close> calls.
\<close>

definition missing_widgets :: "probe_env \<Rightarrow> (exn + tldm_class) \<times> nat" where
  "missing_widgets env =
     (case warn_call env of
        Some e \<Rightarrow> (Inl e, 1)
      | None \<Rightarrow> (Inl ImportError, 1))"

text \<open>The body of the \<open>try\<close> of \<open>_get_auto_tldm\<close>.\<close>

definition get_auto_tldm_try :: "probe_env \<Rightarrow> (exn + tldm_class) \<times> nat" where
  "get_auto_tldm_try env =
     (case ipython_hook env of
        Some e \<Rightarrow> (Inl e, 0)
      | None \<Rightarrow>
     (case kernel_app env of
        Inl e \<Rightarrow> (Inl e, 0)
      | Inr False \<Rightarrow> (Inl ImportError, 0)
      | Inr True \<Rightarrow>
     (case import_WARN_NOIPYW env of
        Some e \<Rightarrow> (Inl e, 0)
      | None \<Rightarrow>
     (case import_IProgress env of
        Inl e \<Rightarrow> (if e = ImportError then missing_widgets env else (Inl e, 0))
      | Inr False \<Rightarrow> missing_widgets env
      | Inr True \<Rightarrow>
     (case import_notebook_tldm env of
        Some e \<Rightarrow> (Inl e, 0)
      | None \<Rightarrow> (Inr NotebookTldm, 0))))))"

text \<open>
  \<open>_get_auto_tldm\<close>: the \<open>try\<close> body under \<open>except Exception: return tldm\<close>.  An exception
  that does not derive from \<open>Exception\<close> is not caught.
\<close>

definition get_auto_tldm :: "probe_env \<Rightarrow> world \<Rightarrow> (exn + tldm_class) \<times> world" where
  "get_auto_tldm env w =
     (let (r, k) = get_auto_tldm_try env;
          w' = w\<lparr>probes := Suc (probes w), warn_calls := warn_calls w + k\<rparr>
      in case r of
           Inr c \<Rightarrow> (Inr c, w')
         | Inl e \<Rightarrow> (if is_Exception e then (Inr StdTldm, w') else (Inl e, w')))"

subsection \<open>The module\<close>

text \<open>
  The module-level statement \<open>auto_tldm = _get_auto_tldm()\<close> runs when \<open>tldm.aliases\<close> is
  imported; the adapter functions read the global \<open>auto_tldm\<close> it binds.
\<close>

record aliases_module =
  auto_tldm :: tldm_class

definition load_aliases :: "probe_env \<Rightarrow> world \<Rightarrow> (exn + aliases_module) \<times> world" where
  "load_aliases env w =
     (case get_auto_tldm env w of
        (Inl e, w') \<Rightarrow> (Inl e, w')
      | (Inr c, w') \<Rightarrow> (Inr \<lparr>auto_tldm = c\<rparr>, w'))"

subsection \<open>Keyword arguments and the progress-bar class\<close>

text \<open>
  Values a caller passes as keyword arguments: \<open>None\<close>, an integer, a class, a string.
\<close>

datatype kwval =
    VNone
  | VInt int
  | VClass tldm_class
  | VStr string

type_synonym kwargs = "string \<rightharpoonup> kwval"

text \<open>\<open>d.pop(key, default)\<close> and \<open>d.setdefault(key, value)\<close>.\<close>

definition pop :: "(string \<rightharpoonup> 'v) \<Rightarrow> string \<Rightarrow> 'v \<Rightarrow> 'v \<times> (string \<rightharpoonup> 'v)" where
  "pop d k dflt = (case d k of None \<Rightarrow> (dflt, d) | Some v \<Rightarrow> (v, d(k := None)))"

definition setdefault :: "(string \<rightharpoonup> 'v) \<Rightarrow> string \<Rightarrow> 'v \<Rightarrow> (string \<rightharpoonup> 'v)" where
  "setdefault d k v = (case d k of None \<Rightarrow> d(k \<mapsto> v) | Some _ \<Rightarrow> d)"

text \<open>
  The progress-bar classes are not part of the modelled files.  What the adapters rely on
  is taken as a parameter \<open>class_iter c kw xs\<close>: the items produced by iterating an
  instance of class \<open>c\<close> constructed over the iterable \<open>xs\<close> with keyword arguments \<open>kw\<close>.
\<close>

type_synonym 'a class_iter = "tldm_class \<Rightarrow> kwargs \<Rightarrow> 'a list \<Rightarrow> 'a list"

text \<open>
  Calling the value bound to \<open>tldm_class\<close> after the \<open>is None\<close> test: a class is called,
  anything else is not callable.
\<close>

definition resolve_class :: "aliases_module \<Rightarrow> kwval \<Rightarrow> exn + tldm_class" where
  "resolve_class m v =
     (case v of
        VNone \<Rightarrow> Inr (auto_tldm m)
      | VClass c \<Rightarrow> Inr c
      | _ \<Rightarrow> Inl TypeError)"

subsection \<open>\<open>tenumerate\<close>, \<open>tzip\<close>, \<open>tmap\<close>, \<open>trange\<close>\<close>

text \<open>The builtin \<open>enumerate(iterable, start)\<close>.\<close>

fun enumerate_py :: "'a list \<Rightarrow> int \<Rightarrow> (int \<times> 'a) list" where
  "enumerate_py [] n = []"
| "enumerate_py (x # xs) n = (n, x) # enumerate_py xs (n + 1)"

definition tenumerate ::
  "'a class_iter \<Rightarrow> aliases_module \<Rightarrow> 'a list \<Rightarrow> int \<Rightarrow> kwval \<Rightarrow> tldm_class option \<Rightarrow> kwargs
     \<Rightarrow> (int \<times> 'a) list" where
  "tenumerate ci m iterable start total_v tldm_class tldm_kwargs =
     (let c = (case tldm_class of None \<Rightarrow> auto_tldm m | Some c \<Rightarrow> c)
      in enumerate_py (ci c (tldm_kwargs(''total'' \<mapsto> total_v)) iterable) start)"

text \<open>
  The builtin \<open>zip(*iterables)\<close>: take the next item of each iterable in turn, stop as
  soon as one of them has none; no iterables give no tuples.  A tuple is the list of its
  components.
\<close>

function zip_py :: "'a list list \<Rightarrow> 'a list list" where
  "zip_py xss =
     (if xss = [] \<or> [] \<in> set xss then [] else map hd xss # zip_py (map tl xss))"
  by pat_completeness auto
termination
proof (relation "measure (\<lambda>xss. length (hd xss))")
  show "wf (measure (\<lambda>xss. length (hd xss)))" by simp
next
  fix xss :: "'a list list"
  assume a: "\<not> (xss = [] \<or> [] \<in> set xss)"
  then have "hd xss \<noteq> []" by (cases xss) auto
  moreover from a have "hd (map tl xss) = tl (hd xss)" by (cases xss) auto
  ultimately show "(map tl xss, xss) \<in> measure (\<lambda>xss. length (hd xss))" by simp
qed

declare zip_py.simps [simp del]

definition tzip :: "'a class_iter \<Rightarrow> aliases_module \<Rightarrow> 'a list \<Rightarrow> 'a list list \<Rightarrow> kwargs
     \<Rightarrow> exn + 'a list list" where
  "tzip ci m iter1 iter2plus tldm_kwargs =
     (let (tldm_class, kwargs) = pop tldm_kwargs ''tldm_class'' VNone
      in case resolve_class m tldm_class of
           Inl e \<Rightarrow> Inl e
         | Inr c \<Rightarrow> Inr (zip_py (ci c kwargs iter1 # iter2plus)))"

text \<open>
  \<open>tmap(function, *sequences, **tldm_kwargs)\<close>: \<open>tzip(*sequences, ...)\<close> needs a first
  iterable; \<open>function\<close> receives the components of each tuple.
\<close>

definition tmap :: "'a class_iter \<Rightarrow> aliases_module \<Rightarrow> ('a list \<Rightarrow> 'b) \<Rightarrow> 'a list list \<Rightarrow> kwargs
     \<Rightarrow> exn + 'b list" where
  "tmap ci m function sequences tldm_kwargs =
     (case sequences of
        [] \<Rightarrow> Inl TypeError
      | iter1 # iter2plus \<Rightarrow>
          (case tzip ci m iter1 iter2plus tldm_kwargs of
             Inl e \<Rightarrow> Inl e
           | Inr tuples \<Rightarrow> Inr (map function tuples)))"

text \<open>
  The builtin \<open>range(*args)\<close> over integers: one to three arguments, a zero step is a
  \<open>ValueError\<close>.
\<close>

definition range_items :: "int \<Rightarrow> int \<Rightarrow> int \<Rightarrow> int list" where
  "range_items start stop step =
     (if 0 < step then map (\<lambda>k. start + int k * step) [0 ..< nat ((stop - start + step - 1) div step)]
      else map (\<lambda>k. start + int k * step) [0 ..< nat ((start - stop - step - 1) div (- step))])"

fun range_py :: "int list \<Rightarrow> exn + int list" where
  "range_py [stop] = Inr (range_items 0 stop 1)"
| "range_py [start, stop] = Inr (range_items start stop 1)"
| "range_py [start, stop, step] =
     (if step = 0 then Inl ValueError else Inr (range_items start stop step))"
| "range_py _ = Inl TypeError"

text \<open>
  \<open>trange\<close> returns the instance \<open>auto_tldm(range(*args), **kwargs)\<close>: its class, its
  keyword arguments and the iterable it wraps.
\<close>

definition trange :: "aliases_module \<Rightarrow> int list \<Rightarrow> kwargs \<Rightarrow> exn + (tldm_class \<times> kwargs \<times> int list)" where
  "trange m args kwargs =
     (case range_py args of
        Inl e \<Rightarrow> Inl e
      | Inr r \<Rightarrow> Inr (auto_tldm m, kwargs, r))"


subsection \<open>\<open>tproduct\<close>\<close>

text \<open>
  An input iterable, by what \<open>operator.length_hint\<close> can learn about it, with the items
  it produces:
  \<^item> \<open>Sized\<close>: \<open>len()\<close> works (list, tuple, range);
  \<^item> \<open>Hinted h\<close>: no \<open>__len__\<close>, \<open>__length_hint__()\<close> returns the integer \<open>h\<close>;
  \<^item> \<open>Unsized\<close>: neither \<open>__len__\<close> nor \<open>__length_hint__\<close> (a generator);
  \<^item> \<open>BadHint\<close>: \<open>__length_hint__()\<close> returns something that is not an integer.
\<close>

datatype 'a iterable =
    Sized "'a list"
  | Hinted int "'a list"
  | Unsized "'a list"
  | BadHint "'a list"

fun items :: "'a iterable \<Rightarrow> 'a list" where
  "items (Sized xs) = xs"
| "items (Hinted h xs) = xs"
| "items (Unsized xs) = xs"
| "items (BadHint xs) = xs"

text \<open>
  \<open>operator.length_hint(obj)\<close>, called with its default \<open>0\<close>: the length, else the hint
  (\<open>ValueError\<close> when negative, \<open>TypeError\<close> when not an integer), else the default.
\<close>

fun length_hint :: "'a iterable \<Rightarrow> exn + int" where
  "length_hint (Sized xs) = Inr (int (length xs))"
| "length_hint (Hinted h xs) = (if h < 0 then Inl ValueError else Inr h)"
| "length_hint (Unsized xs) = Inr 0"
| "length_hint (BadHint xs) = Inl TypeError"

text \<open>\<open>list(map(length_hint, iterables))\<close>: the first exception ends it.\<close>

fun length_hints :: "'a iterable list \<Rightarrow> exn + int list" where
  "length_hints [] = Inr []"
| "length_hints (x # xs) =
     (case length_hint x of
        Inl e \<Rightarrow> Inl e
      | Inr n \<Rightarrow> (case length_hints xs of Inl e \<Rightarrow> Inl e | Inr ns \<Rightarrow> Inr (n # ns)))"

text \<open>
  What the progress-bar constructor receives for a key: a value the caller passed, or the
  float computed by \<open>total ** repeat\<close> for a negative \<open>repeat\<close>, kept as the expression.
\<close>

datatype ctor_val = Passed kwval | FloatPow int int

type_synonym ctor_kwargs = "string \<rightharpoonup> ctor_val"

text \<open>\<open>total ** repeat\<close> for an integer \<open>total\<close>.\<close>

definition power_py :: "int \<Rightarrow> kwval \<Rightarrow> exn + ctor_val" where
  "power_py b v =
     (case v of
        VInt r \<Rightarrow>
          (if 0 \<le> r then Inr (Passed (VInt (b ^ nat r)))
           else if b = 0 then Inl ZeroDivisionError
           else Inr (FloatPow b r))
      | _ \<Rightarrow> Inl TypeError)"

text \<open>
  The statements of \<open>tproduct\<close> before the \<open>with\<close>: the class to construct, the keyword
  arguments for it, and \<open>repeat\<close>.
\<close>

definition tproduct_prologue ::
  "aliases_module \<Rightarrow> 'a iterable list \<Rightarrow> kwargs \<Rightarrow> exn + (tldm_class \<times> ctor_kwargs \<times> kwval)" where
  "tproduct_prologue m iterables tldm_kwargs =
     (let (repeat, kwargs1) = pop tldm_kwargs ''repeat'' (VInt 1);
          (tldm_class, kwargs2) = pop kwargs1 ''tldm_class'' VNone;
          kwargs = map_option Passed \<circ> kwargs2
      in case (case length_hints iterables of
                 Inl e \<Rightarrow> (if e = TypeError then Inr kwargs else Inl e)
               | Inr lens \<Rightarrow>
                   (case power_py (fold (\<lambda>i t. t * i) lens 1) repeat of
                      Inl e \<Rightarrow> Inl e
                    | Inr total_v \<Rightarrow> Inr (setdefault kwargs ''total'' total_v))) of
           Inl e \<Rightarrow> Inl e
         | Inr kwargs' \<Rightarrow>
             (case resolve_class m tldm_class of
                Inl e \<Rightarrow> Inl e
              | Inr c \<Rightarrow> Inr (c, kwargs', repeat)))"

text \<open>
  \<open>itertools.product(*iterables, repeat=repeat)\<close>, as the library documents it: the pools
  are repeated, and each pool in turn extends every partial tuple by each of its items.
\<close>

definition itertools_product :: "'a list list \<Rightarrow> nat \<Rightarrow> 'a list list" where
  "itertools_product pools repeat =
     fold (\<lambda>pool result. concat (map (\<lambda>x. map (\<lambda>y. x @ [y]) pool) result))
       (concat (replicate repeat pools)) [[]]"

definition product_call :: "'a iterable list \<Rightarrow> kwval \<Rightarrow> exn + 'a list list" where
  "product_call iterables repeat =
     (case repeat of
        VInt r \<Rightarrow>
          (if r < 0 then Inl ValueError
           else Inr (itertools_product (map items iterables) (nat r)))
      | _ \<Rightarrow> Inl TypeError)"

text \<open>
  A progress-bar instance, as far as \<open>tproduct\<close> observes it: the class and keyword
  arguments it was constructed with, the number of \<open>update()\<close> calls it received, and
  whether the \<open>with\<close> statement has released it.
\<close>

record bar =
  bar_class :: tldm_class
  bar_kwargs :: ctor_kwargs
  updates :: nat
  released :: bool

text \<open>
  The generator object made by calling \<open>tproduct\<close>: not started, suspended at
  \<open>yield val\<close> with the tuples \<open>it\<close> has yet to produce, or finished (with the instance it
  constructed, if it got that far).
\<close>

datatype 'a tproduct_gen =
    Unstarted "'a iterable list" kwargs
  | AtYield bar "'a list list"
  | Finished "bar option"

datatype 'a step = Yield 'a | StopIteration | Raise exn

definition tproduct :: "'a iterable list \<Rightarrow> kwargs \<Rightarrow> 'a tproduct_gen" where
  "tproduct iterables tldm_kwargs = Unstarted iterables tldm_kwargs"

text \<open>
  The head of \<open>for val in it\<close>: yield the next tuple, or leave the loop and the \<open>with\<close>
  statement, which releases the instance.
\<close>

fun for_val_in_it :: "bar \<Rightarrow> 'a list list \<Rightarrow> 'a list step \<times> 'a tproduct_gen" where
  "for_val_in_it t [] = (StopIteration, Finished (Some (t\<lparr>released := True\<rparr>)))"
| "for_val_in_it t (val # rest) = (Yield val, AtYield t rest)"

text \<open>
  \<open>next(gen)\<close>.  The first call runs the function from its first statement; a later call
  resumes after the \<open>yield\<close>, at \<open>t.update()\<close>.
\<close>

definition tproduct_next ::
  "aliases_module \<Rightarrow> 'a tproduct_gen \<Rightarrow> 'a list step \<times> 'a tproduct_gen" where
  "tproduct_next m g =
     (case g of
        Unstarted iterables tldm_kwargs \<Rightarrow>
          (case tproduct_prologue m iterables tldm_kwargs of
             Inl e \<Rightarrow> (Raise e, Finished None)
           | Inr (c, kwargs, repeat) \<Rightarrow>
               (let t = \<lparr>bar_class = c, bar_kwargs = kwargs, updates = 0, released = False\<rparr>
                in case product_call iterables repeat of
                     Inl e \<Rightarrow> (Raise e, Finished (Some (t\<lparr>released := True\<rparr>)))
                   | Inr tuples \<Rightarrow> for_val_in_it t tuples))
      | AtYield t rest \<Rightarrow> for_val_in_it (t\<lparr>updates := Suc (updates t)\<rparr>) rest
      | Finished b \<Rightarrow> (StopIteration, Finished b))"

text \<open>
  \<open>gen.close()\<close>, which is also what discarding the generator does: \<open>GeneratorExit\<close> is
  raised at the \<open>yield\<close> and leaves the \<open>with\<close> statement.
\<close>

definition tproduct_close :: "'a tproduct_gen \<Rightarrow> 'a tproduct_gen" where
  "tproduct_close g =
     (case g of
        Unstarted iterables tldm_kwargs \<Rightarrow> Finished None
      | AtYield t rest \<Rightarrow> Finished (Some (t\<lparr>released := True\<rparr>))
      | Finished b \<Rightarrow> Finished b)"

text \<open>\<open>k\<close> calls of \<open>next\<close> in a row: what each returned, and the generator afterwards.\<close>

fun pulls :: "aliases_module \<Rightarrow> nat \<Rightarrow> 'a tproduct_gen \<Rightarrow> 'a list step list \<times> 'a tproduct_gen" where
  "pulls m 0 g = ([], g)"
| "pulls m (Suc k) g =
     (let (r, g') = tproduct_next m g;
          (rs, g'') = pulls m k g'
      in (r # rs, g''))"

text \<open>The instance a generator holds, if any.\<close>

fun gen_bar :: "'a tproduct_gen \<Rightarrow> bar option" where
  "gen_bar (Unstarted iterables tldm_kwargs) = None"
| "gen_bar (AtYield t rest) = Some t"
| "gen_bar (Finished b) = b"

subsection \<open>A caller's run\<close>

text \<open>
  A process that imports \<open>tldm.aliases\<close> and then calls \<open>tenumerate\<close> with an explicit
  class: the pairs it gets and what the run left behind.
\<close>

definition import_then_tenumerate ::
  "probe_env \<Rightarrow> 'a class_iter \<Rightarrow> 'a list \<Rightarrow> int \<Rightarrow> tldm_class \<Rightarrow> world
     \<Rightarrow> (exn + (int \<times> 'a) list) \<times> world" where
  "import_then_tenumerate env ci iterable start c w =
     (case load_aliases env w of
        (Inl e, w') \<Rightarrow> (Inl e, w')
      | (Inr m, w') \<Rightarrow> (Inr (tenumerate ci m iterable start VNone (Some c) Map.empty), w'))"

section \<open>Example inputs\<close>

definition example_log_state :: log_state where
  "example_log_state =
     \<lparr>handlers_attr = (\<lambda>lg. 0),
      list_heap = (\<lambda>r. [])(0 := [0, 1]),
      next_list = 1,
      handler_heap = (\<lambda>h. \<lparr>is_stream_handler = True, tqdm_class = None,
                              stream = OtherStream 0, formatter = None, level = 0\<rparr>)
        (0 := \<lparr>is_stream_handler = True, tqdm_class = None,
                stream = Stdout, formatter = Some 5, level = 20\<rparr>),
      next_handler = 2,
      logger_lists = (\<lambda>r. [])(0 := [root])\<rparr>"

text \<open>A block that rebinds every logger's \<open>handlers\<close> and then raises.\<close>

definition example_body :: scope_body where
  "example_body st = (Raised ValueError, st\<lparr>handlers_attr := (\<lambda>lg. 7)\<rparr>)"

text \<open>
  A block that empties the list object it passed as \<open>loggers\<close> (\<open>loggers.clear()\<close>) and
  returns.
\<close>

definition clearing_body :: scope_body where
  "clearing_body st = (Returned, st\<lparr>logger_lists := (logger_lists st)(0 := [])\<rparr>)"

definition example_emit_env :: emit_env where
  "example_emit_env =
     \<lparr>format_record = (\<lambda>r. Inr ''msg''),
      class_write = (\<lambda>c msg f. Some (OtherException 0)),
      flush_handler = None\<rparr>"

subsection \<open>Exceptions of the probing steps\<close>

text \<open>Every exception that some probing step of the environment raises.\<close>

definition probe_exns :: "probe_env \<Rightarrow> exn list" where
  "probe_exns env =
     (case ipython_hook env of Some e \<Rightarrow> [e] | None \<Rightarrow> []) @
     (case kernel_app env of Inl e \<Rightarrow> [e] | Inr b \<Rightarrow> []) @
     (case import_WARN_NOIPYW env of Some e \<Rightarrow> [e] | None \<Rightarrow> []) @
     (case import_IProgress env of Inl e \<Rightarrow> [e] | Inr b \<Rightarrow> []) @
     (case warn_call env of Some e \<Rightarrow> [e] | None \<Rightarrow> []) @
     (case import_notebook_tldm env of Some e \<Rightarrow> [e] | None \<Rightarrow> [])"

subsection \<open>Example environments\<close>

text \<open>A plain interpreter: IPython was never imported.\<close>

definition console_env :: probe_env where
  "console_env =
     \<lparr>ipython_hook = Some KeyError, kernel_app = Inl AttributeError,
      import_WARN_NOIPYW = None, import_IProgress = Inr False,
      warn_call = None, import_notebook_tldm = None\<rparr>"

text \<open>A notebook kernel without the widget package.\<close>

definition kernel_without_widgets_env :: probe_env where
  "kernel_without_widgets_env =
     \<lparr>ipython_hook = None, kernel_app = Inr True,
      import_WARN_NOIPYW = None, import_IProgress = Inr False,
      warn_call = None, import_notebook_tldm = None\<rparr>"

text \<open>The user interrupts while the IPython hook runs.\<close>

definition interrupted_env :: probe_env where
  "interrupted_env =
     \<lparr>ipython_hook = None, kernel_app = Inl KeyboardInterrupt,
      import_WARN_NOIPYW = None, import_IProgress = Inr False,
      warn_call = None, import_notebook_tldm = None\<rparr>"

definition fresh_world :: world where
  "fresh_world = \<lparr>probes = 0, warn_calls = 0\<rparr>"

text \<open>A class whose instances iterate over exactly the items of the wrapped iterable.\<close>

definition transparent_iter :: "'a class_iter" where
  "transparent_iter c kw xs = xs"

text \<open>The module as a plain interpreter loads it.\<close>

definition std_module :: aliases_module where
  "std_module = \<lparr>auto_tldm = StdTldm\<rparr>"

section \<open>logging.py: proofs\<close>
lemma first_console_cong:
  "(\<And>h. h \<in> set hs \<Longrightarrow> hp h = hp' h) \<Longrightarrow>
   get_first_found_console_logging_handler hp hs = get_first_found_console_logging_handler hp' hs"
  by (induction hs) auto

lemma non_console_cong:
  "(\<And>h. h \<in> set hs \<Longrightarrow> hp h = hp' h) \<Longrightarrow> non_console hp hs = non_console hp' hs"
  unfolding non_console_def by (rule filter_cong) auto

lemma first_console_Some:
  "get_first_found_console_logging_handler hp hs = Some oh \<Longrightarrow>
   oh \<in> set hs \<and> is_console_logging_handler (hp oh)"
  by (induction hs) (auto split: if_splits)

lemma first_console_snoc:
  "(\<And>h. h \<in> set fs \<Longrightarrow> \<not> is_console_logging_handler (hp h)) \<Longrightarrow>
   is_console_logging_handler (hp t) \<Longrightarrow>
   get_first_found_console_logging_handler hp (fs @ [t]) = Some t"
  by (induction fs) auto

lemma non_console_snoc:
  "(\<And>h. h \<in> set fs \<Longrightarrow> \<not> is_console_logging_handler (hp h)) \<Longrightarrow>
   is_console_logging_handler (hp t) \<Longrightarrow>
   non_console hp (fs @ [t]) = fs"
  unfolding non_console_def by (induction fs) auto

lemma redirect_logger_frame:
  "heap_frame s0 st \<Longrightarrow> heap_frame s0 (redirect_logger c x st)"
  by (auto simp: heap_frame_def redirect_logger_def Let_def split: option.splits)

text \<open>The state after one pass, in terms of the list and the heap it started from.\<close>

lemma redirect_logger_result:
  assumes hs: "hs = list_heap st (handlers_attr st lg)"
    and fresh: "next_handler st \<notin> set hs"
    and st'_def: "st' = redirect_logger c lg st"
  shows "handlers_attr st' lg = next_list st"
    and "next_list st' = Suc (next_list st)"
    and "next_handler st' = Suc (next_handler st)"
    and "list_heap st' (next_list st) = non_console (handler_heap st) hs @ [next_handler st]"
    and "tqdm_class (handler_heap st' (next_handler st)) = Some c"
    and "is_stream_handler (handler_heap st' (next_handler st))"
    and "get_first_found_console_logging_handler (handler_heap st) hs = None \<Longrightarrow>
           handler_heap st' (next_handler st) = TqdmLoggingHandler_init c"
    and "get_first_found_console_logging_handler (handler_heap st) hs = Some oh \<Longrightarrow>
           formatter (handler_heap st' (next_handler st)) = formatter (handler_heap st oh) \<and>
           level (handler_heap st' (next_handler st)) = level (handler_heap st oh) \<and>
           stream (handler_heap st' (next_handler st)) = stream (handler_heap st oh)"
proof -
  let ?th = "next_handler st"
  let ?hp1 = "(handler_heap st)(?th := TqdmLoggingHandler_init c)"
  have agree: "\<And>h. h \<in> set hs \<Longrightarrow> ?hp1 h = handler_heap st h"
    using fresh by auto
  have f1: "get_first_found_console_logging_handler ?hp1 hs =
            get_first_found_console_logging_handler (handler_heap st) hs"
    by (rule first_console_cong) (rule agree)
  show "handlers_attr st' lg = next_list st" "next_list st' = Suc (next_list st)"
       "next_handler st' = Suc (next_handler st)"
    by (auto simp: st'_def redirect_logger_def Let_def split: option.splits)
  show "tqdm_class (handler_heap st' (next_handler st)) = Some c"
       "is_stream_handler (handler_heap st' (next_handler st))"
    by (auto simp: st'_def redirect_logger_def Let_def TqdmLoggingHandler_init_def split: option.splits)
  show "list_heap st' (next_list st) = non_console (handler_heap st) hs @ [next_handler st]"
  proof (cases "get_first_found_console_logging_handler (handler_heap st) hs")
    case None
    have "non_console ?hp1 hs = non_console (handler_heap st) hs"
      by (rule non_console_cong) (rule agree)
    with None f1 show ?thesis
      by (simp add: st'_def redirect_logger_def Let_def hs[symmetric] non_console_def)
  next
    case (Some oh)
    let ?hp2 = "?hp1(?th := (?hp1 ?th)\<lparr>stream := stream (?hp1 oh),
                  formatter := formatter (?hp1 oh), level := level (?hp1 oh)\<rparr>)"
    have "non_console ?hp2 hs = non_console (handler_heap st) hs"
      by (rule non_console_cong) (use fresh in auto)
    with Some f1 show ?thesis
      by (simp add: st'_def redirect_logger_def Let_def hs[symmetric] non_console_def)
  qed
  show "handler_heap st' (next_handler st) = TqdmLoggingHandler_init c"
    if "get_first_found_console_logging_handler (handler_heap st) hs = None"
    using that f1 by (simp add: st'_def redirect_logger_def Let_def hs[symmetric])
  show "formatter (handler_heap st' (next_handler st)) = formatter (handler_heap st oh) \<and>
        level (handler_heap st' (next_handler st)) = level (handler_heap st oh) \<and>
        stream (handler_heap st' (next_handler st)) = stream (handler_heap st oh)"
    if a: "get_first_found_console_logging_handler (handler_heap st) hs = Some oh"
  proof -
    from first_console_Some[OF a] fresh have "oh \<noteq> ?th" by auto
    with a f1 show ?thesis
      by (simp add: st'_def redirect_logger_def Let_def hs[symmetric])
  qed
qed


lemma redirect_logger_first_pass:
  assumes fr: "heap_frame s0 st" and al: "allocated s0 lg"
    and un: "handlers_attr st lg = handlers_attr s0 lg"
  shows "redirected s0 c lg (redirect_logger c lg st)"
proof -
  let ?prior = "list_heap s0 (handlers_attr s0 lg)"
  let ?st' = "redirect_logger c lg st"
  let ?th = "next_handler st"
  have hs: "?prior = list_heap st (handlers_attr st lg)"
    using fr al un by (simp add: heap_frame_def allocated_def)
  have old: "\<And>h. h \<in> set ?prior \<Longrightarrow> h < next_handler s0"
    using al by (simp add: allocated_def)
  have fresh: "?th \<notin> set ?prior"
    using old fr by (fastforce simp: heap_frame_def)
  have agree: "\<And>h. h \<in> set ?prior \<Longrightarrow> handler_heap st h = handler_heap s0 h"
    using old fr by (simp add: heap_frame_def)
  note res = redirect_logger_result[where c = c, OF hs fresh refl]
  have nc: "non_console (handler_heap st) ?prior = non_console (handler_heap s0) ?prior"
    by (rule non_console_cong) (rule agree)
  have fc: "get_first_found_console_logging_handler (handler_heap st) ?prior =
            get_first_found_console_logging_handler (handler_heap s0) ?prior"
    by (rule first_console_cong) (rule agree)
  have lst: "list_heap ?st' (handlers_attr ?st' lg) = non_console (handler_heap s0) ?prior @ [?th]"
    using res(1,4) nc by simp
  have console: "is_console_logging_handler (handler_heap ?st' ?th)"
  proof (cases "get_first_found_console_logging_handler (handler_heap st) ?prior")
    case None
    from res(7)[OF None] show ?thesis
      by (simp add: is_console_logging_handler_def TqdmLoggingHandler_init_def)
  next
    case (Some oh)
    from first_console_Some[OF Some] res(8)[OF Some] res(6) show ?thesis
      by (simp add: is_console_logging_handler_def)
  qed
  have copy: "formatter (handler_heap ?st' ?th) = formatter (handler_heap s0 oh) \<and>
              level (handler_heap ?st' ?th) = level (handler_heap s0 oh) \<and>
              stream (handler_heap ?st' ?th) = stream (handler_heap s0 oh)"
    if a: "get_first_found_console_logging_handler (handler_heap s0) ?prior = Some oh" for oh
  proof -
    from a fc have b: "get_first_found_console_logging_handler (handler_heap st) ?prior = Some oh"
      by simp
    from first_console_Some[OF a] agree have "handler_heap st oh = handler_heap s0 oh" by simp
    with res(8)[OF b] show ?thesis by simp
  qed
  have "next_handler s0 \<le> ?th" using fr by (simp add: heap_frame_def)
  with lst console copy res(1,2,3,5) show ?thesis
    unfolding redirected_def Let_def by simp
qed

lemma non_console_set:
  "h \<in> set (non_console hp hs) \<Longrightarrow> h \<in> set hs \<and> \<not> is_console_logging_handler (hp h)"
  by (simp add: non_console_def)

lemma redirect_logger_second_pass:
  assumes fr: "heap_frame s0 st" and al: "allocated s0 lg"
    and rd: "redirected s0 c lg st"
  shows "redirected s0 c lg (redirect_logger c lg st)"
proof -
  let ?prior = "list_heap s0 (handlers_attr s0 lg)"
  let ?F = "non_console (handler_heap s0) ?prior"
  let ?st' = "redirect_logger c lg st"
  let ?th = "next_handler st"
  define t1 where "t1 = last (list_heap st (handlers_attr st lg))"
  from rd have hs: "?F @ [t1] = list_heap st (handlers_attr st lg)"
    and t1: "next_handler s0 \<le> t1" "t1 < next_handler st"
            "is_console_logging_handler (handler_heap st t1)"
    and cp: "\<And>oh. get_first_found_console_logging_handler (handler_heap s0) ?prior = Some oh \<Longrightarrow>
            formatter (handler_heap st t1) = formatter (handler_heap s0 oh) \<and>
            level (handler_heap st t1) = level (handler_heap s0 oh) \<and>
            stream (handler_heap st t1) = stream (handler_heap s0 oh)"
    unfolding redirected_def Let_def t1_def by simp_all
  have old: "\<And>h. h \<in> set ?F \<Longrightarrow> h < next_handler s0"
    using al non_console_set[of _ "handler_heap s0" ?prior] by (auto simp: allocated_def)
  have ncF: "\<And>h. h \<in> set ?F \<Longrightarrow> \<not> is_console_logging_handler (handler_heap st h)"
    using old fr non_console_set[of _ "handler_heap s0" ?prior] by (simp add: heap_frame_def)
  have fresh: "?th \<notin> set (?F @ [t1])"
    using old fr t1 by (fastforce simp: heap_frame_def)
  note res = redirect_logger_result[where c = c, OF hs fresh refl]
  have fc: "get_first_found_console_logging_handler (handler_heap st) (?F @ [t1]) = Some t1"
    by (rule first_console_snoc) (use ncF t1 in auto)
  have nc: "non_console (handler_heap st) (?F @ [t1]) = ?F"
    by (rule non_console_snoc) (use ncF t1 in auto)
  have lst: "list_heap ?st' (handlers_attr ?st' lg) = ?F @ [?th]"
    using res(1,4) nc by simp
  note c8 = res(8)[OF fc]
  have console: "is_console_logging_handler (handler_heap ?st' ?th)"
    using c8 res(6) t1(3) by (simp add: is_console_logging_handler_def)
  have "next_handler s0 \<le> ?th" using fr by (simp add: heap_frame_def)
  with lst console cp c8 res(1,2,3,5) show ?thesis
    unfolding redirected_def Let_def by simp
qed

lemma redirect_logger_other:
  assumes "x \<noteq> lg" and "redirected s0 c lg st"
  shows "redirected s0 c lg (redirect_logger c x st)"
  using assms unfolding redirected_def Let_def redirect_logger_def
  by (auto split: option.splits)

lemma redirect_logger_untouched:
  "x \<noteq> lg \<Longrightarrow> handlers_attr (redirect_logger c x st) lg = handlers_attr st lg"
  by (simp add: redirect_logger_def Let_def split: option.splits)

lemma fold_redirect_logger:
  assumes "heap_frame s0 st" and "allocated s0 lg"
    and "redirected s0 c lg st \<or> (handlers_attr st lg = handlers_attr s0 lg \<and> lg \<in> set ls)"
  shows "redirected s0 c lg (fold (redirect_logger c) ls st)"
  using assms
proof (induction ls arbitrary: st)
  case Nil
  then show ?case by simp
next
  case (Cons x ls)
  have fr': "heap_frame s0 (redirect_logger c x st)"
    using Cons.prems(1) by (rule redirect_logger_frame)
  have "redirected s0 c lg (redirect_logger c x st) \<or>
        (handlers_attr (redirect_logger c x st) lg = handlers_attr s0 lg \<and> lg \<in> set ls)"
  proof (cases "x = lg")
    case True
    from Cons.prems(3) show ?thesis
    proof
      assume "redirected s0 c lg st"
      then show ?thesis
        using redirect_logger_second_pass[OF Cons.prems(1,2)] True by simp
    next
      assume "handlers_attr st lg = handlers_attr s0 lg \<and> lg \<in> set (x # ls)"
      then show ?thesis
        using redirect_logger_first_pass[OF Cons.prems(1,2)] True by simp
    qed
  next
    case False
    from Cons.prems(3) show ?thesis
    proof
      assume "redirected s0 c lg st"
      then show ?thesis using redirect_logger_other[OF False] by simp
    next
      assume "handlers_attr st lg = handlers_attr s0 lg \<and> lg \<in> set (x # ls)"
      then show ?thesis using False redirect_logger_untouched[OF False] by simp
    qed
  qed
  from Cons.IH[OF fr' Cons.prems(2) this] show ?case by simp
qed

lemma heap_frame_refl: "heap_frame s s"
  by (simp add: heap_frame_def)

lemma enter_redirect_frame: "heap_frame s (enter_redirect ls c s)"
proof -
  have "heap_frame s0 st \<Longrightarrow> heap_frame s0 (fold (redirect_logger c) ls st)" for s0 st
    by (induction ls arbitrary: st) (auto intro: redirect_logger_frame)
  from this[OF heap_frame_refl] show ?thesis by (simp add: enter_redirect_def)
qed

text \<open>
  Claim C7.  After the entry loop, the handler list of every target logger whose list and
  handlers exist in the store is the logger's prior non-console handlers, unchanged and
  in order, followed by one handler allocated by the loop, which redirects to the given
  class; the prior handlers keep their attributes; and if the prior list has a console
  handler, the new handler has the formatter, level and stream of the first one.  This
  holds also when a logger occurs more than once among the targets.
\<close>
theorem enter_redirect_handler_list:
  assumes "lg \<in> set ls"
    and "handlers_attr s lg < next_list s"
    and "\<forall>h \<in> set (list_heap s (handlers_attr s lg)). h < next_handler s"
  shows "(let s1 = enter_redirect ls c s;
              prior = list_heap s (handlers_attr s lg);
              new = list_heap s1 (handlers_attr s1 lg);
              th = last new
          in new = filter (\<lambda>h. \<not> is_console_logging_handler (handler_heap s h)) prior @ [th] \<and>
             next_handler s \<le> th \<and>
             tqdm_class (handler_heap s1 th) = Some c \<and>
             (\<forall>h \<in> set prior. handler_heap s1 h = handler_heap s h) \<and>
             (case get_first_found_console_logging_handler (handler_heap s) prior of
                None \<Rightarrow> True
              | Some oh \<Rightarrow>
                  formatter (handler_heap s1 th) = formatter (handler_heap s oh) \<and>
                  level (handler_heap s1 th) = level (handler_heap s oh) \<and>
                  stream (handler_heap s1 th) = stream (handler_heap s oh)))"
proof -
  have al: "allocated s lg" using assms(2,3) by (simp add: allocated_def)
  have "redirected s c lg (enter_redirect ls c s)"
    unfolding enter_redirect_def
    by (rule fold_redirect_logger[OF heap_frame_refl al]) (use assms(1) in simp)
  moreover have "\<forall>h \<in> set (list_heap s (handlers_attr s lg)).
                   handler_heap (enter_redirect ls c s) h = handler_heap s h"
    using enter_redirect_frame[of s ls c] assms(3) by (simp add: heap_frame_def)
  ultimately show ?thesis
    unfolding redirected_def Let_def non_console_def
    by (auto split: option.splits)
qed

lemma restore_handlers_attr:
  "handlers_attr (restore_handlers (zip ls (map f ls)) s) =
     (\<lambda>x. if x \<in> set ls then f x else handlers_attr s x)"
  by (induction ls arbitrary: s) (auto simp: fun_eq_iff)

lemma restore_handlers_heap:
  "list_heap (restore_handlers ps s) = list_heap s \<and>
   handler_heap (restore_handlers ps s) = handler_heap s"
  by (induction ps s rule: restore_handlers.induct) auto

text \<open>The entry loop leaves every list of loggers as it is.\<close>

lemma redirect_logger_logger_lists:
  "logger_lists (redirect_logger c lg s) = logger_lists s"
  by (simp add: redirect_logger_def Let_def split: option.splits)

lemma enter_redirect_logger_lists:
  "logger_lists (enter_redirect ls c s) = logger_lists s"
  unfolding enter_redirect_def
  by (induction ls arbitrary: s) (simp_all add: redirect_logger_logger_lists)

text \<open>
  Claim C1 as stated fails.  The \<open>finally\<close> block iterates over the caller's own list
  object, after the block has run.  When the block empties that list and returns, nothing
  is restored: the root logger leaves the scope bound to the redirected list, not to the
  list it had at entry.
\<close>
theorem logging_redirect_tqdm_clear_loggers:
  "fst (logging_redirect_tqdm (Some 0) StdTldm clearing_body example_log_state) = Returned \<and>
   target_loggers (Some 0) example_log_state = [root] \<and>
   handlers_attr example_log_state root = 0 \<and>
   list_heap example_log_state 0 = [0, 1] \<and>
   handlers_attr (snd (logging_redirect_tqdm (Some 0) StdTldm clearing_body example_log_state))
     root = 1 \<and>
   list_heap (snd (logging_redirect_tqdm (Some 0) StdTldm clearing_body example_log_state)) 1
     = [1, 2]"
  by (simp add: logging_redirect_tqdm_def clearing_body_def target_loggers_def
      enter_redirect_def redirect_logger_def example_log_state_def Let_def
      is_console_logging_handler_def TqdmLoggingHandler_init_def root_def)

text \<open>
  Claim C1, amended.  When the block leaves the items of \<open>loggers\<close> as they were at entry
  (always so when \<open>loggers\<close> is omitted), then however the block ends (the outcome \<open>out\<close>
  is the block's own: a return or a raised exception), after the scope every target
  logger's \<open>handlers\<close> attribute is bound to the very list object it was bound to at
  entry; and unless the block itself changed that list object in place, the list holds
  the same handler references in the same order as at entry.
\<close>
theorem logging_redirect_tqdm_restores:
  assumes run: "logging_redirect_tqdm loggers c body s = (out, s')"
    and lg: "lg \<in> set (target_loggers loggers s)"
    and same: "target_loggers loggers
                 (snd (body (enter_redirect (target_loggers loggers s) c s))) =
               target_loggers loggers s"
  shows "out = fst (body (enter_redirect (target_loggers loggers s) c s)) \<and>
         handlers_attr s' lg = handlers_attr s lg \<and>
         (handlers_attr s lg < next_list s \<and>
          list_heap (snd (body (enter_redirect (target_loggers loggers s) c s)))
              (handlers_attr s lg) =
            list_heap (enter_redirect (target_loggers loggers s) c s) (handlers_attr s lg)
          \<longrightarrow> list_heap s' (handlers_attr s' lg) = list_heap s (handlers_attr s lg))"
proof -
  let ?ls = "target_loggers loggers s"
  let ?s1 = "enter_redirect ?ls c s"
  obtain o2 s2 where b: "body ?s1 = (o2, s2)" by (cases "body ?s1")
  from same b have ls2: "target_loggers loggers s2 = ?ls" by simp
  from run b have out: "out = o2"
    and s': "s' = restore_handlers (zip (target_loggers loggers s2) (map (handlers_attr s) ?ls)) s2"
    by (simp_all add: logging_redirect_tqdm_def Let_def)
  have attr: "handlers_attr s' lg = handlers_attr s lg"
    using lg by (simp add: s' ls2 restore_handlers_attr)
  have heap: "list_heap s' = list_heap s2"
    by (simp add: s' restore_handlers_heap)
  have fr: "handlers_attr s lg < next_list s \<Longrightarrow>
            list_heap ?s1 (handlers_attr s lg) = list_heap s (handlers_attr s lg)"
    using enter_redirect_frame[of s ?ls c] by (simp add: heap_frame_def)
  show ?thesis using out attr heap fr b by simp
qed

text \<open>
  Claim C8.  \<open>emit\<close> formats the record, passes the text to the class's \<open>write\<close> with the
  handler's stream, and flushes.  A failure of any of the three steps is handed to
  \<open>handleError\<close> and does not leave \<open>emit\<close>, unless it is \<open>KeyboardInterrupt\<close> or
  \<open>SystemExit\<close>, which leave \<open>emit\<close> at once, without a call of \<open>handleError\<close>.
\<close>
theorem emit_routes_failures:
  assumes "tqdm_class self = Some c"
  shows "(\<forall>msg. format_record env r = Inr msg \<and> class_write env c msg (stream self) = None \<and>
                flush_handler env = None \<longrightarrow>
            emit env self r = (None, [CallFormat r, CallWrite c msg (stream self), CallFlush])) \<and>
         (\<forall>e. format_record env r = Inl e \<longrightarrow>
            emit env self r =
              (if e = KeyboardInterrupt \<or> e = SystemExit then (Some e, [CallFormat r])
               else (None, [CallFormat r, CallHandleError r]))) \<and>
         (\<forall>msg e. format_record env r = Inr msg \<and> class_write env c msg (stream self) = Some e \<longrightarrow>
            emit env self r =
              (if e = KeyboardInterrupt \<or> e = SystemExit
               then (Some e, [CallFormat r, CallWrite c msg (stream self)])
               else (None, [CallFormat r, CallWrite c msg (stream self), CallHandleError r]))) \<and>
         (\<forall>msg e. format_record env r = Inr msg \<and> class_write env c msg (stream self) = None \<and>
                flush_handler env = Some e \<longrightarrow>
            emit env self r =
              (if e = KeyboardInterrupt \<or> e = SystemExit
               then (Some e, [CallFormat r, CallWrite c msg (stream self), CallFlush])
               else (None, [CallFormat r, CallWrite c msg (stream self), CallFlush,
                            CallHandleError r])))"
  using assms by (simp add: emit_def emit_try_def)

theorem emit_routes_failures_witness:
  "tqdm_class (TqdmLoggingHandler_init StdTldm) = Some StdTldm \<and>
   format_record example_emit_env 3 = Inr ''msg'' \<and>
   class_write example_emit_env StdTldm ''msg'' (stream (TqdmLoggingHandler_init StdTldm))
     = Some (OtherException 0) \<and>
   emit example_emit_env (TqdmLoggingHandler_init StdTldm) 3 =
     (None, [CallFormat 3, CallWrite StdTldm ''msg'' Stderr, CallHandleError 3])"
proof -
  have h: "tqdm_class (TqdmLoggingHandler_init StdTldm) = Some StdTldm"
    by (simp add: TqdmLoggingHandler_init_def)
  have f: "format_record example_emit_env 3 = Inr ''msg''"
    and w: "class_write example_emit_env StdTldm ''msg'' (stream (TqdmLoggingHandler_init StdTldm))
              = Some (OtherException 0)"
    by (simp_all add: example_emit_env_def)
  from emit_routes_failures[OF h, of example_emit_env 3] f w
  have "emit example_emit_env (TqdmLoggingHandler_init StdTldm) 3 =
          (None, [CallFormat 3, CallWrite StdTldm ''msg''
                    (stream (TqdmLoggingHandler_init StdTldm)), CallHandleError 3])"
    by simp
  with h f w show ?thesis by (simp add: TqdmLoggingHandler_init_def)
qed

theorem enter_redirect_handler_list_witness:
  "root \<in> set [root] \<and>
   handlers_attr example_log_state root < next_list example_log_state \<and>
   list_heap example_log_state (handlers_attr example_log_state root) = [0, 1] \<and>
   next_handler example_log_state = 2 \<and>
   butlast (list_heap (enter_redirect [root] StdTldm example_log_state)
              (handlers_attr (enter_redirect [root] StdTldm example_log_state) root)) = [1] \<and>
   2 \<le> last (list_heap (enter_redirect [root] StdTldm example_log_state)
              (handlers_attr (enter_redirect [root] StdTldm example_log_state) root)) \<and>
   tqdm_class (handler_heap (enter_redirect [root] StdTldm example_log_state)
     (last (list_heap (enter_redirect [root] StdTldm example_log_state)
              (handlers_attr (enter_redirect [root] StdTldm example_log_state) root))))
     = Some StdTldm \<and>
   formatter (handler_heap (enter_redirect [root] StdTldm example_log_state)
     (last (list_heap (enter_redirect [root] StdTldm example_log_state)
              (handlers_attr (enter_redirect [root] StdTldm example_log_state) root))))
     = Some 5 \<and>
   level (handler_heap (enter_redirect [root] StdTldm example_log_state)
     (last (list_heap (enter_redirect [root] StdTldm example_log_state)
              (handlers_attr (enter_redirect [root] StdTldm example_log_state) root))))
     = 20 \<and>
   stream (handler_heap (enter_redirect [root] StdTldm example_log_state)
     (last (list_heap (enter_redirect [root] StdTldm example_log_state)
              (handlers_attr (enter_redirect [root] StdTldm example_log_state) root))))
     = Stdout"
proof -
  let ?s = example_log_state
  let ?s1 = "enter_redirect [root] StdTldm ?s"
  let ?prior = "list_heap ?s (handlers_attr ?s root)"
  let ?new = "list_heap ?s1 (handlers_attr ?s1 root)"
  have h1: "root \<in> set [root]" by simp
  have h2: "handlers_attr ?s root < next_list ?s"
    by (simp add: example_log_state_def)
  have h3: "\<forall>h \<in> set ?prior. h < next_handler ?s"
    by (simp add: example_log_state_def)
  have p: "?prior = [0, 1]" and n: "next_handler ?s = 2"
    by (simp_all add: example_log_state_def)
  have f: "filter (\<lambda>h. \<not> is_console_logging_handler (handler_heap ?s h)) ?prior = [1]"
    by (simp add: example_log_state_def is_console_logging_handler_def)
  have g: "get_first_found_console_logging_handler (handler_heap ?s) ?prior = Some 0"
    by (simp add: example_log_state_def is_console_logging_handler_def)
  have a: "formatter (handler_heap ?s 0) = Some 5" "level (handler_heap ?s 0) = 20"
          "stream (handler_heap ?s 0) = Stdout"
    by (simp_all add: example_log_state_def)
  note t = enter_redirect_handler_list[OF h1 h2 h3, of StdTldm, unfolded Let_def f g n]
  from t have t1: "?new = [1] @ [last ?new]" by blast
  have c1: "butlast ?new = [1]"
    by (subst t1) (simp only: butlast_snoc)
  from t have c2: "2 \<le> last ?new" by blast
  from t have c3: "tqdm_class (handler_heap ?s1 (last ?new)) = Some StdTldm" by blast
  from t have "formatter (handler_heap ?s1 (last ?new)) = formatter (handler_heap ?s 0) \<and>
               level (handler_heap ?s1 (last ?new)) = level (handler_heap ?s 0) \<and>
               stream (handler_heap ?s1 (last ?new)) = stream (handler_heap ?s 0)"
    by simp
  with a have c4: "formatter (handler_heap ?s1 (last ?new)) = Some 5"
    and c5: "level (handler_heap ?s1 (last ?new)) = 20"
    and c6: "stream (handler_heap ?s1 (last ?new)) = Stdout"
    by simp_all
  from h1 h2 p n c1 c2 c3 c4 c5 c6 show ?thesis by blast
qed

lemma example_enter_redirect:
  "list_heap (enter_redirect [root] StdTldm example_log_state)
     (handlers_attr (enter_redirect [root] StdTldm example_log_state) root) = [1, 2] \<and>
   handler_heap (enter_redirect [root] StdTldm example_log_state) 2 =
     \<lparr>is_stream_handler = True, tqdm_class = Some StdTldm, stream = Stdout,
      formatter = Some 5, level = 20\<rparr>"
  by (simp add: enter_redirect_def redirect_logger_def example_log_state_def Let_def
      is_console_logging_handler_def TqdmLoggingHandler_init_def root_def)

theorem logging_redirect_tqdm_restores_witness:
  "logging_redirect_tqdm (Some 0) StdTldm example_body example_log_state =
     (Raised ValueError,
      snd (logging_redirect_tqdm (Some 0) StdTldm example_body example_log_state)) \<and>
   root \<in> set (target_loggers (Some 0) example_log_state) \<and>
   target_loggers (Some 0)
     (snd (example_body
        (enter_redirect (target_loggers (Some 0) example_log_state) StdTldm example_log_state)))
     = target_loggers (Some 0) example_log_state \<and>
   handlers_attr (snd (logging_redirect_tqdm (Some 0) StdTldm example_body example_log_state)) root
     = handlers_attr example_log_state root \<and>
   list_heap (snd (logging_redirect_tqdm (Some 0) StdTldm example_body example_log_state))
     (handlers_attr (snd (logging_redirect_tqdm (Some 0) StdTldm example_body example_log_state))
        root)
     = [0, 1]"
proof -
  let ?s = example_log_state
  let ?run = "logging_redirect_tqdm (Some 0) StdTldm example_body ?s"
  let ?s1 = "enter_redirect (target_loggers (Some 0) ?s) StdTldm ?s"
  have h1: "?run = (Raised ValueError, snd ?run)"
    by (simp add: logging_redirect_tqdm_def example_body_def Let_def)
  have h2: "root \<in> set (target_loggers (Some 0) ?s)"
    by (simp add: target_loggers_def example_log_state_def)
  have h0: "target_loggers (Some 0) (snd (example_body ?s1)) = target_loggers (Some 0) ?s"
    by (simp add: target_loggers_def example_body_def enter_redirect_logger_lists)
  have h3: "handlers_attr ?s root < next_list ?s"
    by (simp add: example_log_state_def)
  have h4: "list_heap (snd (example_body ?s1)) (handlers_attr ?s root) =
            list_heap ?s1 (handlers_attr ?s root)"
    by (simp add: example_body_def)
  have h5: "list_heap ?s (handlers_attr ?s root) = [0, 1]"
    by (simp add: example_log_state_def)
  note t = logging_redirect_tqdm_restores[OF h1 h2 h0]
  from t have a: "handlers_attr (snd ?run) root = handlers_attr ?s root"
    by blast
  from t h3 h4
  have b: "list_heap (snd ?run) (handlers_attr (snd ?run) root) =
           list_heap ?s (handlers_attr ?s root)"
    by blast
  from b h5 have b': "list_heap (snd ?run) (handlers_attr (snd ?run) root) = [0, 1]"
    by (rule trans)
  from h1 h2 h0 a b' show ?thesis by blast
qed

section \<open>aliases.py: proofs\<close>

lemma get_auto_tldm_try_warns:
  "snd (get_auto_tldm_try env) \<le> 1 \<and>
   (snd (get_auto_tldm_try env) \<noteq> 0 \<longrightarrow>
      ipython_hook env = None \<and> kernel_app env = Inr True \<and> import_WARN_NOIPYW env = None \<and>
      (import_IProgress env = Inl ImportError \<or> import_IProgress env = Inr False))"
  by (auto simp: get_auto_tldm_try_def missing_widgets_def
           split: option.splits sum.splits bool.splits)

lemma get_auto_tldm_try_raises:
  "fst (get_auto_tldm_try env) = Inl e \<Longrightarrow> e = ImportError \<or> e \<in> set (probe_exns env)"
  by (auto simp: get_auto_tldm_try_def missing_widgets_def probe_exns_def
           split: option.splits sum.splits bool.splits if_splits)

lemma get_auto_tldm_try_returns:
  "fst (get_auto_tldm_try env) = Inr c \<Longrightarrow>
     c = NotebookTldm \<and> ipython_hook env = None \<and> kernel_app env = Inr True \<and>
     import_WARN_NOIPYW env = None \<and> import_IProgress env = Inr True \<and>
     import_notebook_tldm env = None"
  by (auto simp: get_auto_tldm_try_def missing_widgets_def
           split: option.splits sum.splits bool.splits if_splits)

lemma get_auto_tldm_result:
  "fst (get_auto_tldm env w) =
     (case fst (get_auto_tldm_try env) of
        Inr c \<Rightarrow> Inr c
      | Inl e \<Rightarrow> if is_Exception e then Inr StdTldm else Inl e)"
  by (simp add: get_auto_tldm_def Let_def split: prod.splits sum.splits)

lemma get_auto_tldm_world:
  "snd (get_auto_tldm env w) =
     w\<lparr>probes := Suc (probes w), warn_calls := warn_calls w + snd (get_auto_tldm_try env)\<rparr>"
  by (simp add: get_auto_tldm_def Let_def split: prod.splits sum.splits)

text \<open>
  Claim C9 as stated fails: \<open>except Exception\<close> does not catch an exception that derives
  from \<open>BaseException\<close> only.  When the user interrupts the IPython hook,
  \<open>_get_auto_tldm\<close> raises \<open>KeyboardInterrupt\<close> and returns no class.
\<close>
theorem get_auto_tldm_interrupted: 
  "fst (get_auto_tldm interrupted_env fresh_world) = Inl KeyboardInterrupt"
  by (simp add: get_auto_tldm_def get_auto_tldm_try_def interrupted_env_def Let_def)

text \<open>
  Claim C9, amended.  \<open>_get_auto_tldm\<close> returns the standard or the notebook class, or
  lets through an exception of a probing step that does not derive from \<open>Exception\<close>.
  When the probing steps raise only exceptions that derive from \<open>Exception\<close>, it never
  raises.  It returns the notebook class only when every step succeeded, so every caught
  failure gives the standard class.  \<open>warn\<close> is called at most once, and only when a
  kernel was detected and the widget class is missing.
\<close>
theorem get_auto_tldm_falls_back:
  "(case fst (get_auto_tldm env w) of
      Inr c \<Rightarrow> c = StdTldm \<or> c = NotebookTldm
    | Inl e \<Rightarrow> \<not> is_Exception e \<and> e \<in> set (probe_exns env)) \<and>
   ((\<forall>e \<in> set (probe_exns env). is_Exception e) \<longrightarrow>
      fst (get_auto_tldm env w) = Inr StdTldm \<or> fst (get_auto_tldm env w) = Inr NotebookTldm) \<and>
   (fst (get_auto_tldm env w) = Inr NotebookTldm \<longrightarrow>
      ipython_hook env = None \<and> kernel_app env = Inr True \<and> import_WARN_NOIPYW env = None \<and>
      import_IProgress env = Inr True \<and> import_notebook_tldm env = None) \<and>
   warn_calls (snd (get_auto_tldm env w)) \<le> warn_calls w + 1 \<and>
   (warn_calls (snd (get_auto_tldm env w)) \<noteq> warn_calls w \<longrightarrow>
      ipython_hook env = None \<and> kernel_app env = Inr True \<and> import_WARN_NOIPYW env = None \<and>
      (import_IProgress env = Inl ImportError \<or> import_IProgress env = Inr False))"
proof -
  let ?t = "fst (get_auto_tldm_try env)"
  have a: "case fst (get_auto_tldm env w) of
             Inr c \<Rightarrow> c = StdTldm \<or> c = NotebookTldm
           | Inl e \<Rightarrow> \<not> is_Exception e \<and> e \<in> set (probe_exns env)"
  proof (cases ?t)
    case (Inl e)
    with get_auto_tldm_try_raises[of env e] show ?thesis
      by (auto simp: get_auto_tldm_result)
  next
    case (Inr c)
    with get_auto_tldm_try_returns[of env c] show ?thesis
      by (simp add: get_auto_tldm_result)
  qed
  have b: "fst (get_auto_tldm env w) = Inr StdTldm \<or> fst (get_auto_tldm env w) = Inr NotebookTldm"
    if "\<forall>e \<in> set (probe_exns env). is_Exception e"
    using a that by (cases "fst (get_auto_tldm env w)") auto
  have c: "ipython_hook env = None \<and> kernel_app env = Inr True \<and> import_WARN_NOIPYW env = None \<and>
           import_IProgress env = Inr True \<and> import_notebook_tldm env = None"
    if "fst (get_auto_tldm env w) = Inr NotebookTldm"
  proof (cases ?t)
    case (Inl e)
    with that show ?thesis by (simp add: get_auto_tldm_result split: if_splits)
  next
    case (Inr c)
    with get_auto_tldm_try_returns[of env c] show ?thesis by simp
  qed
  have d: "warn_calls (snd (get_auto_tldm env w)) \<le> warn_calls w + 1"
    using get_auto_tldm_try_warns[of env] by (simp add: get_auto_tldm_world)
  have e: "ipython_hook env = None \<and> kernel_app env = Inr True \<and> import_WARN_NOIPYW env = None \<and>
           (import_IProgress env = Inl ImportError \<or> import_IProgress env = Inr False)"
    if "warn_calls (snd (get_auto_tldm env w)) \<noteq> warn_calls w"
    using get_auto_tldm_try_warns[of env] that by (simp add: get_auto_tldm_world)
  from a b c d e show ?thesis by blast
qed

theorem get_auto_tldm_falls_back_witness:
  "probe_exns kernel_without_widgets_env = [] \<and>
   fst (get_auto_tldm kernel_without_widgets_env fresh_world) = Inr StdTldm \<and>
   warn_calls (snd (get_auto_tldm kernel_without_widgets_env fresh_world)) = 1"
proof -
  have h: "\<forall>e \<in> set (probe_exns kernel_without_widgets_env). is_Exception e"
    by (simp add: probe_exns_def kernel_without_widgets_env_def)
  have n: "import_IProgress kernel_without_widgets_env \<noteq> Inr True"
    by (simp add: kernel_without_widgets_env_def)
  have w: "warn_calls (snd (get_auto_tldm kernel_without_widgets_env fresh_world)) = 1"
    by (simp add: get_auto_tldm_def get_auto_tldm_try_def missing_widgets_def
        kernel_without_widgets_env_def fresh_world_def Let_def)
  from get_auto_tldm_falls_back[of kernel_without_widgets_env fresh_world] h n
  have "fst (get_auto_tldm kernel_without_widgets_env fresh_world) = Inr StdTldm"
    by blast
  moreover have "probe_exns kernel_without_widgets_env = []"
    by (simp add: probe_exns_def kernel_without_widgets_env_def)
  ultimately show ?thesis using w by blast
qed

text \<open>
  Claim C2 as stated fails: the selection is not deferred to the first iteration.  A
  process that imports the module and calls \<open>tenumerate\<close> with its own class has run the
  probing code once, at the import.
\<close>
theorem explicit_class_still_probes:
  "probes (snd (import_then_tenumerate console_env transparent_iter [7 :: int] 0 (UserTldm 0)
                  fresh_world))
     = 1"
  by (simp add: import_then_tenumerate_def load_aliases_def get_auto_tldm_def
      get_auto_tldm_try_def console_env_def fresh_world_def Let_def)

lemma load_aliases_Inr:
  "load_aliases env w = (Inr m, w') \<Longrightarrow>
     get_auto_tldm env w = (Inr (auto_tldm m), w')"
  by (auto simp: load_aliases_def split: prod.splits sum.splits)

text \<open>
  Claim C2, amended.  Loading the module runs \<open>_get_auto_tldm\<close> exactly once and binds its
  result to \<open>auto_tldm\<close>.  The adapter functions do not probe: \<open>tenumerate\<close>, \<open>tzip\<close>,
  \<open>tmap\<close> and \<open>tproduct\<close> construct the explicit class when one is supplied and the
  stored \<open>auto_tldm\<close> otherwise, and \<open>trange\<close> always constructs the stored \<open>auto_tldm\<close>.
\<close>
theorem auto_tldm_resolved_at_import:
  assumes "load_aliases env w = (Inr m, w')"
  shows "probes w' = Suc (probes w) \<and>
         fst (get_auto_tldm env w) = Inr (auto_tldm m) \<and>
         tenumerate ci m xs start tv (Some c) kw =
           enumerate_py (ci c (kw(''total'' \<mapsto> tv)) xs) start \<and>
         tenumerate ci m xs start tv None kw =
           enumerate_py (ci (auto_tldm m) (kw(''total'' \<mapsto> tv)) xs) start \<and>
         tzip ci m xs yss (kw(''tldm_class'' \<mapsto> VClass c)) =
           Inr (zip_py (ci c (kw(''tldm_class'' := None)) xs # yss)) \<and>
         tzip ci m xs yss (kw(''tldm_class'' := None)) =
           Inr (zip_py (ci (auto_tldm m) (kw(''tldm_class'' := None)) xs # yss)) \<and>
         tmap ci m f (xs # yss) (kw(''tldm_class'' \<mapsto> VClass c)) =
           Inr (map f (zip_py (ci c (kw(''tldm_class'' := None)) xs # yss))) \<and>
         tmap ci m f (xs # yss) (kw(''tldm_class'' := None)) =
           Inr (map f (zip_py (ci (auto_tldm m) (kw(''tldm_class'' := None)) xs # yss))) \<and>
         (\<forall>c' kwargs rp.
            tproduct_prologue m its (kw(''tldm_class'' \<mapsto> VClass c)) = Inr (c', kwargs, rp)
              \<longrightarrow> c' = c) \<and>
         (\<forall>c' kwargs rp.
            tproduct_prologue m its (kw(''tldm_class'' := None)) = Inr (c', kwargs, rp)
              \<longrightarrow> c' = auto_tldm m) \<and>
         (\<forall>b kwargs r. trange m args kw = Inr (b, kwargs, r) \<longrightarrow> b = auto_tldm m)"
proof -
  from load_aliases_Inr[OF assms] have g: "get_auto_tldm env w = (Inr (auto_tldm m), w')" .
  have p: "probes w' = Suc (probes w)"
    using g get_auto_tldm_world[of env w] by (cases w') auto
  have r: "fst (get_auto_tldm env w) = Inr (auto_tldm m)" using g by simp
  have e1: "tenumerate ci m xs start tv (Some c) kw =
              enumerate_py (ci c (kw(''total'' \<mapsto> tv)) xs) start"
    and e2: "tenumerate ci m xs start tv None kw =
              enumerate_py (ci (auto_tldm m) (kw(''total'' \<mapsto> tv)) xs) start"
    by (simp_all add: tenumerate_def)
  have z1: "tzip ci m xs yss (kw(''tldm_class'' \<mapsto> VClass c)) =
              Inr (zip_py (ci c (kw(''tldm_class'' := None)) xs # yss))"
    and z2: "tzip ci m xs yss (kw(''tldm_class'' := None)) =
              Inr (zip_py (ci (auto_tldm m) (kw(''tldm_class'' := None)) xs # yss))"
    by (simp_all add: tzip_def pop_def resolve_class_def)
  have m1: "tmap ci m f (xs # yss) (kw(''tldm_class'' \<mapsto> VClass c)) =
              Inr (map f (zip_py (ci c (kw(''tldm_class'' := None)) xs # yss)))"
    and m2: "tmap ci m f (xs # yss) (kw(''tldm_class'' := None)) =
              Inr (map f (zip_py (ci (auto_tldm m) (kw(''tldm_class'' := None)) xs # yss)))"
    by (simp_all add: tmap_def z1 z2)
  have t1: "\<forall>c' kwargs rp.
            tproduct_prologue m its (kw(''tldm_class'' \<mapsto> VClass c)) = Inr (c', kwargs, rp)
              \<longrightarrow> c' = c"
    by (auto simp: tproduct_prologue_def pop_def resolve_class_def Let_def
             split: option.splits sum.splits if_splits prod.splits)
  have t2: "\<forall>c' kwargs rp.
            tproduct_prologue m its (kw(''tldm_class'' := None)) = Inr (c', kwargs, rp)
              \<longrightarrow> c' = auto_tldm m"
    by (auto simp: tproduct_prologue_def pop_def resolve_class_def Let_def
             split: option.splits sum.splits if_splits prod.splits)
  have tr: "\<forall>b kwargs r. trange m args kw = Inr (b, kwargs, r) \<longrightarrow> b = auto_tldm m"
    by (auto simp: trange_def split: sum.splits)
  from p r e1 e2 z1 z2 m1 m2 t1 t2 tr show ?thesis by blast
qed

theorem auto_tldm_resolved_at_import_witness:
  "load_aliases console_env fresh_world =
     (Inr \<lparr>auto_tldm = StdTldm\<rparr>, \<lparr>probes = 1, warn_calls = 0\<rparr>) \<and>
   probes \<lparr>probes = 1, warn_calls = 0\<rparr> = Suc (probes fresh_world) \<and>
   tenumerate transparent_iter \<lparr>auto_tldm = StdTldm\<rparr> [7::int] 0 VNone (Some (UserTldm 0)) Map.empty =
     enumerate_py (transparent_iter (UserTldm 0) [''total'' \<mapsto> VNone] [7]) 0"
proof -
  have h: "load_aliases console_env fresh_world =
             (Inr \<lparr>auto_tldm = StdTldm\<rparr>, \<lparr>probes = 1, warn_calls = 0\<rparr>)"
    by (simp add: load_aliases_def get_auto_tldm_def get_auto_tldm_try_def console_env_def
        fresh_world_def Let_def)
  from auto_tldm_resolved_at_import[OF h, of transparent_iter "[7::int]" 0 VNone "UserTldm 0" Map.empty]
  have "probes \<lparr>probes = 1, warn_calls = 0\<rparr> = Suc (probes fresh_world)"
    and "tenumerate transparent_iter \<lparr>auto_tldm = StdTldm\<rparr> [7::int] 0 VNone (Some (UserTldm 0)) Map.empty =
           enumerate_py (transparent_iter (UserTldm 0) [''total'' \<mapsto> VNone] [7]) 0"
    by blast+
  with h show ?thesis by blast
qed

lemma enumerate_py_nth:
  "enumerate_py xs n = map (\<lambda>i. (n + int i, xs ! i)) [0 ..< length xs]"
proof (induction xs arbitrary: n)
  case Nil
  then show ?case by simp
next
  case (Cons x xs)
  have "map (\<lambda>i. (n + int i, (x # xs) ! i)) [0 ..< length (x # xs)] =
        (n, x) # map (\<lambda>i. (n + int (Suc i), xs ! i)) [0 ..< length xs]"
    by (simp add: upt_conv_Cons map_Suc_upt[symmetric] del: upt_Suc)
  also have "\<dots> = (n, x) # map (\<lambda>i. ((n + 1) + int i, xs ! i)) [0 ..< length xs]"
    by (simp add: add.assoc add.commute)
  finally show ?case using Cons.IH[of "n + 1"] by simp
qed

text \<open>
  Claim C4.  For every sequence \<open>S\<close>, every integer \<open>start\<close> and every choice of class
  (explicit or automatic) whose instances iterate over the items of the iterable they
  wrap, \<open>tenumerate\<close> yields the pairs of the builtin \<open>enumerate\<close>: the \<open>i\<close>-th pair is
  \<open>(start + i, S[i])\<close>.
\<close>
theorem tenumerate_is_enumerate:
  assumes "\<forall>c kw. ci c kw S = S"
  shows "tenumerate ci m S start tv tldm_class kw = enumerate_py S start \<and>
         tenumerate ci m S start tv tldm_class kw =
           map (\<lambda>i. (start + int i, S ! i)) [0 ..< length S]"
  using assms by (simp add: tenumerate_def Let_def enumerate_py_nth)

theorem tenumerate_is_enumerate_witness:
  "(\<forall>c kw. transparent_iter c kw ''ab'' = ''ab'') \<and>
   tenumerate transparent_iter \<lparr>auto_tldm = StdTldm\<rparr> ''ab'' (- 1) VNone None Map.empty =
     [(- 1, CHR ''a''), (0, CHR ''b'')]"
proof -
  have h: "\<forall>c kw. transparent_iter c kw ''ab'' = ''ab''"
    by (simp add: transparent_iter_def)
  from tenumerate_is_enumerate[where ci = transparent_iter and S = "''ab''"
         and m = "\<lparr>auto_tldm = StdTldm\<rparr>" and start = "- 1" and tv = VNone
         and tldm_class = None and kw = Map.empty, OF h]
  have "tenumerate transparent_iter \<lparr>auto_tldm = StdTldm\<rparr> ''ab'' (- 1) VNone None Map.empty =
          enumerate_py ''ab'' (- 1)"
    by blast
  with h show ?thesis by simp
qed

lemma zip_py_pair:
  "zip_py [xs, ys] = map (\<lambda>i. [xs ! i, ys ! i]) [0 ..< min (length xs) (length ys)]"
proof (induction xs arbitrary: ys)
  case Nil
  then show ?case by (simp add: zip_py.simps)
next
  case (Cons x xs)
  show ?case
  proof (cases ys)
    case Nil
    then show ?thesis by (simp add: zip_py.simps)
  next
    case (Cons y ys')
    have "zip_py [x # xs, y # ys'] = [x, y] # zip_py [xs, ys']"
      by (subst zip_py.simps) simp
    moreover have "map (\<lambda>i. [(x # xs) ! i, (y # ys') ! i])
                     [0 ..< min (length (x # xs)) (length (y # ys'))] =
                   [x, y] # map (\<lambda>i. [xs ! i, ys' ! i]) [0 ..< min (length xs) (length ys')]"
      by (simp add: upt_conv_Cons map_Suc_upt[symmetric] del: upt_Suc)
    ultimately show ?thesis using Cons.IH[of ys'] Cons by simp
  qed
qed

text \<open>
  Claim C5.  When the \<open>tldm_class\<close> keyword is absent, \<open>None\<close> or a class, \<open>tzip(A, B)\<close>
  returns the tuples of the builtin \<open>zip\<close> over the instance wrapping \<open>A\<close> and the bare
  \<open>B\<close>, whatever their lengths, and raises nothing; with a class whose instance iterates
  over the items of \<open>A\<close>, these are the tuples \<open>(A[i], B[i])\<close> for \<open>i\<close> below the shorter
  length.
\<close>
theorem tzip_is_zip:
  assumes "pop kw ''tldm_class'' VNone = (v, kwargs)"
    and "resolve_class m v = Inr c"
  shows "tzip ci m A [B] kw = Inr (zip_py [ci c kwargs A, B]) \<and>
         (ci c kwargs A = A \<longrightarrow>
            tzip ci m A [B] kw =
              Inr (map (\<lambda>i. [A ! i, B ! i]) [0 ..< min (length A) (length B)]))"
  using assms by (simp add: tzip_def zip_py_pair)

theorem tzip_is_zip_witness:
  "pop Map.empty ''tldm_class'' VNone = (VNone, Map.empty) \<and>
   resolve_class \<lparr>auto_tldm = StdTldm\<rparr> VNone = Inr StdTldm \<and>
   transparent_iter StdTldm Map.empty [1, 2, 3 :: int] = [1, 2, 3] \<and>
   tzip transparent_iter \<lparr>auto_tldm = StdTldm\<rparr> [1, 2, 3 :: int] [[7, 8]] Map.empty =
     Inr [[1, 7], [2, 8]]"
proof -
  have h1: "pop (Map.empty :: kwargs) ''tldm_class'' VNone = (VNone, Map.empty)"
    by (simp add: pop_def)
  have h2: "resolve_class \<lparr>auto_tldm = StdTldm\<rparr> VNone = Inr StdTldm"
    by (simp add: resolve_class_def)
  have h3: "transparent_iter StdTldm Map.empty [1, 2, 3 :: int] = [1, 2, 3]"
    by (simp add: transparent_iter_def)
  from tzip_is_zip[OF h1 h2, of transparent_iter "[1, 2, 3 :: int]" "[7, 8]"] h3
  have "tzip transparent_iter \<lparr>auto_tldm = StdTldm\<rparr> [1, 2, 3 :: int] [[7, 8]] Map.empty =
          Inr (map (\<lambda>i. [[1, 2, 3] ! i, [7, 8] ! i]) [0 ..< min (length [1, 2, 3 :: int]) (length [7, 8 :: int])])"
    by blast
  then have "tzip transparent_iter \<lparr>auto_tldm = StdTldm\<rparr> [1, 2, 3 :: int] [[7, 8]] Map.empty =
          Inr [[1, 7], [2, 8]]"
    by (simp add: upt_conv_Cons)
  with h1 h2 h3 show ?thesis by blast
qed

section \<open>tproduct: proofs\<close>

lemma pulls_AtYield:
  "k \<le> length rest \<Longrightarrow>
   pulls m k (AtYield t rest) =
     (map Yield (take k rest), AtYield (t\<lparr>updates := updates t + k\<rparr>) (drop k rest))"
proof (induction k arbitrary: t rest)
  case 0
  then show ?case by simp
next
  case (Suc k)
  then obtain v rest' where r: "rest = v # rest'" by (cases rest) auto
  with Suc.prems have k: "k \<le> length rest'" by simp
  show ?case
    using Suc.IH[OF k, of "t\<lparr>updates := Suc (updates t)\<rparr>"]
    by (simp add: r tproduct_next_def)
qed

lemma pulls_append:
  "pulls m (a + b) g =
     (fst (pulls m a g) @ fst (pulls m b (snd (pulls m a g))),
      snd (pulls m b (snd (pulls m a g))))"
  by (induction a arbitrary: g) (simp_all add: Let_def split: prod.splits)

text \<open>The first \<open>next\<close>, once the prologue and the product have been computed.\<close>

lemma tproduct_first_next:
  assumes "tproduct_prologue m its kw = Inr (c, kwargs, VInt (int r))"
  shows "tproduct_next m (tproduct its kw) =
           for_val_in_it \<lparr>bar_class = c, bar_kwargs = kwargs, updates = 0, released = False\<rparr>
             (itertools_product (map items its) r)"
  using assms by (simp add: tproduct_next_def tproduct_def product_call_def Let_def)

text \<open>
  After \<open>k\<close> calls, \<open>1 \<le> k \<le> n\<close>: the first \<open>k\<close> tuples were yielded, the generator is
  suspended, and \<open>update\<close> was called \<open>k - 1\<close> times.
\<close>

lemma tproduct_pulls_prefix:
  assumes pro: "tproduct_prologue m its kw = Inr (c, kwargs, VInt (int r))"
    and k: "Suc j \<le> length (itertools_product (map items its) r)"
  shows "pulls m (Suc j) (tproduct its kw) =
           (map Yield (take (Suc j) (itertools_product (map items its) r)),
            AtYield \<lparr>bar_class = c, bar_kwargs = kwargs, updates = j, released = False\<rparr>
              (drop (Suc j) (itertools_product (map items its) r)))"
proof -
  let ?tuples = "itertools_product (map items its) r"
  let ?t0 = "\<lparr>bar_class = c, bar_kwargs = kwargs, updates = 0, released = False\<rparr>"
  from k obtain v rest where t: "?tuples = v # rest" by (cases ?tuples) auto
  with k have j: "j \<le> length rest" by simp
  have "tproduct_next m (tproduct its kw) = (Yield v, AtYield ?t0 rest)"
    using tproduct_first_next[OF pro] t by simp
  then show ?thesis
    using pulls_AtYield[OF j, of m ?t0] t by simp
qed

lemma pulls_one:
  "pulls m (Suc 0) g = ([fst (tproduct_next m g)], snd (tproduct_next m g))"
  by (simp add: Let_def split: prod.splits)





text \<open>
  Claim C10.  For \<open>n \<ge> 1\<close> within the product: after the consumer has received exactly
  \<open>n\<close> tuples the instance has received \<open>n - 1\<close> updates, and still \<open>n - 1\<close> if the
  consumer then abandons the generator; one more \<open>next\<close> (whether it yields or finds the
  product exhausted) brings the count to \<open>n\<close>.
\<close>
theorem tproduct_update_follows_yield:
  assumes "tproduct_prologue m its kw = Inr (c, kwargs, VInt (int r))"
    and "1 \<le> n"
    and "n \<le> length (itertools_product (map items its) r)"
  shows "fst (pulls m n (tproduct its kw)) =
           map Yield (take n (itertools_product (map items its) r)) \<and>
         map_option updates (gen_bar (snd (pulls m n (tproduct its kw)))) = Some (n - 1) \<and>
         map_option updates (gen_bar (tproduct_close (snd (pulls m n (tproduct its kw)))))
           = Some (n - 1) \<and>
         map_option updates (gen_bar (snd (pulls m (Suc n) (tproduct its kw)))) = Some n"
proof -
  let ?tuples = "itertools_product (map items its) r"
  from assms(2) obtain j where n: "n = Suc j" by (cases n) auto
  with assms(3) have j: "Suc j \<le> length ?tuples" by simp
  note a = tproduct_pulls_prefix[OF assms(1) j]
  let ?g = "tproduct its kw"
  have s: "pulls m (Suc j + Suc 0) ?g =
             (fst (pulls m (Suc j) ?g) @ fst (pulls m (Suc 0) (snd (pulls m (Suc j) ?g))),
              snd (pulls m (Suc 0) (snd (pulls m (Suc j) ?g))))"
    by (rule pulls_append)
  have "map_option updates (gen_bar (snd (pulls m (Suc j + Suc 0) ?g))) = Some (Suc j)"
    unfolding s a
    by (cases "drop (Suc j) ?tuples") (simp_all add: pulls_one tproduct_next_def del: pulls.simps)
  then have u: "map_option updates (gen_bar (snd (pulls m (Suc (Suc j)) ?g))) = Some (Suc j)"
    by (simp del: pulls.simps)
  have b: "fst (pulls m (Suc j) ?g) = map Yield (take (Suc j) ?tuples)"
    and c: "map_option updates (gen_bar (snd (pulls m (Suc j) ?g))) = Some j"
    and d: "map_option updates (gen_bar (tproduct_close (snd (pulls m (Suc j) ?g)))) = Some j"
    unfolding a by (simp_all add: tproduct_close_def)
  from b c d u show ?thesis unfolding n by simp
qed

theorem tproduct_update_follows_yield_witness:
  "tproduct_prologue std_module [Sized [1, 2 :: int], Sized [3, 4]] Map.empty =
     Inr (StdTldm, [''total'' \<mapsto> Passed (VInt 4)], VInt (int 1)) \<and>
   (1 :: nat) \<le> 3 \<and>
   3 \<le> length (itertools_product (map items [Sized [1, 2 :: int], Sized [3, 4]]) 1) \<and>
   fst (pulls std_module 3 (tproduct [Sized [1, 2 :: int], Sized [3, 4]] Map.empty)) =
     [Yield [1, 3], Yield [1, 4], Yield [2, 3]] \<and>
   map_option updates
     (gen_bar (snd (pulls std_module 3 (tproduct [Sized [1, 2 :: int], Sized [3, 4]] Map.empty))))
     = Some 2 \<and>
   map_option updates
     (gen_bar (tproduct_close
        (snd (pulls std_module 3 (tproduct [Sized [1, 2 :: int], Sized [3, 4]] Map.empty)))))
     = Some 2 \<and>
   map_option updates
     (gen_bar (snd (pulls std_module 4 (tproduct [Sized [1, 2 :: int], Sized [3, 4]] Map.empty))))
     = Some 3"
proof -
  have h: "tproduct_prologue std_module [Sized [1, 2 :: int], Sized [3, 4]] Map.empty =
             Inr (StdTldm, [''total'' \<mapsto> Passed (VInt 4)], VInt (int 1))"
    by (simp add: tproduct_prologue_def pop_def setdefault_def power_py_def resolve_class_def
        std_module_def)
  have p: "itertools_product (map items [Sized [1, 2 :: int], Sized [3, 4]]) 1 =
             [[1, 3], [1, 4], [2, 3], [2, 4]]"
    by (simp add: itertools_product_def)
  have h2: "(1 :: nat) \<le> 3" by simp
  have h3: "3 \<le> length (itertools_product (map items [Sized [1, 2 :: int], Sized [3, 4]]) 1)"
    unfolding p by simp
  note t = tproduct_update_follows_yield[OF h h2 h3, unfolded p]
  from t have "fst (pulls std_module 3 (tproduct [Sized [1, 2 :: int], Sized [3, 4]] Map.empty)) =
     [Yield [1, 3], Yield [1, 4], Yield [2, 3]]"
    by (simp add: eval_nat_numeral)
  moreover from t have "map_option updates
     (gen_bar (snd (pulls std_module 3 (tproduct [Sized [1, 2 :: int], Sized [3, 4]] Map.empty))))
     = Some 2"
    by simp
  moreover from t have "map_option updates
     (gen_bar (tproduct_close
        (snd (pulls std_module 3 (tproduct [Sized [1, 2 :: int], Sized [3, 4]] Map.empty)))))
     = Some 2"
    by simp
  moreover from t have "map_option updates
     (gen_bar (snd (pulls std_module 4 (tproduct [Sized [1, 2 :: int], Sized [3, 4]] Map.empty))))
     = Some 3"
    by (simp add: eval_nat_numeral)
  ultimately show ?thesis using h h2 h3 by blast
qed

text \<open>
  The total passed for inputs that all have a length and a non-negative \<open>repeat\<close>: the
  product of the lengths to the power \<open>repeat\<close>, unless the caller gave a total.
\<close>

lemma length_hints_Sized:
  "length_hints (map Sized xss) = Inr (map (\<lambda>xs. int (length xs)) xss)"
  by (induction xss) simp_all

lemma tproduct_prologue_sized:
  assumes "kw ''repeat'' = Some (VInt (int r))" and "kw ''tldm_class'' = None"
  shows "tproduct_prologue m (map Sized xss) kw =
           Inr (auto_tldm m,
                (case kw ''total'' of
                   None \<Rightarrow> (map_option Passed \<circ> (kw(''repeat'' := None)))
                              (''total'' \<mapsto> Passed (VInt (fold (\<lambda>i t. t * i)
                                 (map (\<lambda>xs. int (length xs)) xss) 1 ^ r)))
                 | Some v \<Rightarrow> map_option Passed \<circ> (kw(''repeat'' := None))),
                VInt (int r))"
  using assms
  by (simp add: tproduct_prologue_def pop_def setdefault_def power_py_def resolve_class_def
      length_hints_Sized split: option.splits)

text \<open>
  Claim C3 at a generator input.  A generator has no length and no length hint, so
  \<open>operator.length_hint\<close> returns its default \<open>0\<close> and does not raise: the
  \<open>except TypeError\<close> branch is not taken and the constructor receives \<open>total = 0\<close>.
\<close>
theorem tproduct_generator_input_total_zero:
  "tproduct_prologue std_module [Unsized [1, 2 :: int], Sized [3, 4]] Map.empty =
     Inr (StdTldm, [''total'' \<mapsto> Passed (VInt 0)], VInt 1)"
  by (simp add: tproduct_prologue_def pop_def setdefault_def power_py_def resolve_class_def
      std_module_def)

end
